theory Spec2Isabelle
  imports Complex_Main "HOL-Library.Multiset"
begin

section \<open>Data model\<close>

text \<open>
  The gallery of \<^verbatim>\<open>src/App.tsx\<close> keeps one array of photos in React state and derives
  everything else from it. JavaScript numbers are modelled as real numbers: rounding,
  NaN and the infinities are outside the model. An optional field is an \<open>option\<close>;
  \<open>None\<close> stands for \<^verbatim>\<open>undefined\<close>.
\<close>

text \<open>
  Modelled from the spec: the enumeration \<^verbatim>\<open>Category\<close> of \<^verbatim>\<open>./types\<close>, which \<^verbatim>\<open>App.tsx\<close>
  imports and the sources do not contain. The members \<^verbatim>\<open>App.tsx\<close> names are kept by
  name (\<open>ALL_cat\<close> is \<^verbatim>\<open>Category.ALL\<close>); any further member is \<open>OTHER\<close>.
\<close>

datatype Category = ALL_cat | LANDSCAPE | MACRO | HORIZONTAL | VERTICAL | OTHER string

text \<open>
  Modelled from the spec: the exif block of a photo, declared in \<^verbatim>\<open>./types\<close>, which
  the sources do not contain. The fields are those the seed data of \<^verbatim>\<open>App.tsx\<close>
  writes; latitude and longitude are optional.
\<close>

record Exif =
  camera :: string
  lens :: string
  focalLength :: string
  aperture :: string
  shutterSpeed :: string
  iso :: string
  location :: string
  date :: string
  latitude :: "real option"
  longitude :: "real option"

text \<open>
  Modelled from the spec: the type \<^verbatim>\<open>Photo\<close> of \<^verbatim>\<open>./types\<close>, which the sources do not
  contain. The fields are those the seed data of \<^verbatim>\<open>App.tsx\<close> writes (\<open>photo_id\<close> is the
  field \<^verbatim>\<open>id\<close>); width, height and rating are optional, as the code reads each of them
  with a default of \<open>0\<close>.
\<close>

record Photo =
  photo_id :: string
  url :: string
  title :: string
  category :: Category
  width :: "real option"
  height :: "real option"
  rating :: "real option"
  exif :: Exif

text \<open>The five feed tabs of \<^verbatim>\<open>FEED_TABS\<close>, in the order of the source; \<open>OtherTab\<close> is
  any other string, which the \<^verbatim>\<open>switch\<close> sends to its \<^verbatim>\<open>default\<close> branch.\<close>

datatype Tab = Featured | Latest | Shuffle | Nearby | Faraway | OtherTab

record UserLocation =
  lat :: real
  lng :: real

text \<open>\<^verbatim>\<open>x || 0\<close> on an optional number: \<^verbatim>\<open>undefined\<close> and \<open>0\<close> both give \<open>0\<close>.\<close>

definition or0 :: "real option \<Rightarrow> real" where
  "or0 x = (case x of None \<Rightarrow> 0 | Some v \<Rightarrow> if v = 0 then 0 else v)"

section \<open>Updating the collection\<close>

text \<open>
  \<^verbatim>\<open>handleUpdatePhoto\<close> hands \<^verbatim>\<open>setPhotos\<close> this function of the previous collection:
  \<^verbatim>\<open>prevPhotos.some(p => p.id === updatedPhoto.id)\<close> decides between mapping the
  collection and prepending to it.
\<close>

definition handleUpdatePhoto :: "Photo \<Rightarrow> Photo list \<Rightarrow> Photo list" where
  "handleUpdatePhoto updatedPhoto prevPhotos =
     (if list_ex (\<lambda>p. photo_id p = photo_id updatedPhoto) prevPhotos
      then map (\<lambda>p. if photo_id p = photo_id updatedPhoto then updatedPhoto else p) prevPhotos
      else updatedPhoto # prevPhotos)"

section \<open>Great-circle distance\<close>

definition deg2rad :: "real \<Rightarrow> real" where
  "deg2rad deg = deg * (pi / 180)"

text \<open>\<^verbatim>\<open>Math.atan2(y, x)\<close>: the angle of the point \<open>(x, y)\<close>, in \<open>(-\<pi>, \<pi>]\<close>, and \<open>0\<close> at
  the origin.\<close>

definition atan2 :: "real \<Rightarrow> real \<Rightarrow> real" where
  "atan2 y x =
     (if 0 < x then arctan (y / x)
      else if x < 0 then (if 0 \<le> y then arctan (y / x) + pi else arctan (y / x) - pi)
      else if 0 < y then pi / 2
      else if y < 0 then - (pi / 2)
      else 0)"

definition getDistanceFromLatLonInKm :: "real \<Rightarrow> real \<Rightarrow> real \<Rightarrow> real \<Rightarrow> real" where
  "getDistanceFromLatLonInKm lat1 lon1 lat2 lon2 =
     (let R = 6371;
          dLat = deg2rad (lat2 - lat1);
          dLon = deg2rad (lon2 - lon1);
          a = sin (dLat / 2) * sin (dLat / 2) +
              cos (deg2rad lat1) * cos (deg2rad lat2) *
              sin (dLon / 2) * sin (dLon / 2);
          c = 2 * atan2 (sqrt a) (sqrt (1 - a));
          d = R * c
      in d)"

section \<open>Sorting an array with a comparator\<close>

text \<open>
  \<^verbatim>\<open>Array.prototype.sort(compareFn)\<close> is a built-in of the platform. It is modelled as
  a stable insertion sort that calls the comparator on pairs of elements and places
  \<open>a\<close> before \<open>b\<close> when \<open>compareFn(a, b) \<le> 0\<close>. For a comparator that compares by a
  key this is the order every stable sort produces, which is what the language
  standard asks of the built-in; for the comparator of the shuffle tab, whose
  results do not depend on the elements, the standard leaves the order to the engine
  and the insertion sort is one such engine. The comparator may read a state (the
  source of random numbers); it returns its result together with the next state.
\<close>

fun insertWith :: "('a \<Rightarrow> 'a \<Rightarrow> 's \<Rightarrow> real \<times> 's) \<Rightarrow> 'a \<Rightarrow> 'a list \<Rightarrow> 's \<Rightarrow> 'a list \<times> 's" where
  "insertWith compareFn x [] s = ([x], s)"
| "insertWith compareFn x (y # ys) s =
     (case compareFn x y s of
        (c, s') \<Rightarrow>
          if c \<le> 0 then (x # y # ys, s')
          else (case insertWith compareFn x ys s' of (zs, s'') \<Rightarrow> (y # zs, s'')))"

fun arraySortWith :: "('a \<Rightarrow> 'a \<Rightarrow> 's \<Rightarrow> real \<times> 's) \<Rightarrow> 'a list \<Rightarrow> 's \<Rightarrow> 'a list \<times> 's" where
  "arraySortWith compareFn [] s = ([], s)"
| "arraySortWith compareFn (x # xs) s =
     (case arraySortWith compareFn xs s of (ys, s') \<Rightarrow> insertWith compareFn x ys s')"

text \<open>A comparator without effects leaves the state alone.\<close>

definition insertBy :: "('a \<Rightarrow> 'a \<Rightarrow> real) \<Rightarrow> 'a \<Rightarrow> 'a list \<Rightarrow> 'a list" where
  "insertBy compareFn x ys = fst (insertWith (\<lambda>a b s. (compareFn a b, s)) x ys ())"

definition arraySort :: "('a \<Rightarrow> 'a \<Rightarrow> real) \<Rightarrow> 'a list \<Rightarrow> 'a list" where
  "arraySort compareFn xs = fst (arraySortWith (\<lambda>a b s. (compareFn a b, s)) xs ())"

section \<open>Composing the feed\<close>

text \<open>The predicate of the first \<^verbatim>\<open>photos.filter\<close> of \<^verbatim>\<open>filteredPhotos\<close>.\<close>

definition categoryFilter :: "Category \<Rightarrow> Photo \<Rightarrow> bool" where
  "categoryFilter activeCategory p =
     (if activeCategory = ALL_cat then True
      else if activeCategory = HORIZONTAL then or0 (width p) \<ge> or0 (height p)
      else if activeCategory = VERTICAL then or0 (height p) > or0 (width p)
      else category p = activeCategory)"

text \<open>The comparator of the featured tab: \<^verbatim>\<open>(b.rating || 0) - (a.rating || 0)\<close>.\<close>

definition ratingCompare :: "Photo \<Rightarrow> Photo \<Rightarrow> real" where
  "ratingCompare a b = or0 (rating b) - or0 (rating a)"

text \<open>
  \<^verbatim>\<open>distA\<close> and \<^verbatim>\<open>distB\<close> of the distance comparator: the distance from the user when
  \<^verbatim>\<open>exif.latitude && exif.longitude\<close> is truthy, and \<open>99999\<close> otherwise. A number is
  truthy when it is present and not \<open>0\<close>.
\<close>

definition photoDistance :: "UserLocation \<Rightarrow> Photo \<Rightarrow> real" where
  "photoDistance userLocation p =
     (case (latitude (exif p), longitude (exif p)) of
        (Some la, Some lo) \<Rightarrow>
          if la \<noteq> 0 \<and> lo \<noteq> 0
          then getDistanceFromLatLonInKm (lat userLocation) (lng userLocation) la lo
          else 99999
      | _ \<Rightarrow> 99999)"

definition distanceCompare :: "Tab \<Rightarrow> UserLocation \<Rightarrow> Photo \<Rightarrow> Photo \<Rightarrow> real" where
  "distanceCompare activeTab userLocation a b =
     (let distA = photoDistance userLocation a;
          distB = photoDistance userLocation b
      in if activeTab = Nearby then distA - distB else distB - distA)"

text \<open>The comparator of the shuffle tab, \<^verbatim>\<open>() => Math.random() - 0.5\<close>: \<open>random k\<close> is
  the number the \<open>k\<close>-th call of \<^verbatim>\<open>Math.random()\<close> returns.\<close>

definition randomCompare :: "(nat \<Rightarrow> real) \<Rightarrow> Photo \<Rightarrow> Photo \<Rightarrow> nat \<Rightarrow> real \<times> nat" where
  "randomCompare random a b k = (random k - 0.5, Suc k)"

text \<open>
  \<^verbatim>\<open>filteredPhotos\<close>, the memoised composition. Its inputs are the dependencies of the
  \<^verbatim>\<open>useMemo\<close> and the random numbers the shuffle draws. \<^verbatim>\<open>photos.filter\<close> builds a new
  array, so the sorts in place never touch the collection.
\<close>

definition filteredPhotos ::
  "Photo list \<Rightarrow> Category \<Rightarrow> Tab \<Rightarrow> nat \<Rightarrow> UserLocation option \<Rightarrow> (nat \<Rightarrow> real) \<Rightarrow> Photo list" where
  "filteredPhotos photos activeCategory activeTab shuffleTrigger userLocation random =
     (let result = filter (categoryFilter activeCategory) photos
      in case activeTab of
           Featured \<Rightarrow> arraySort ratingCompare (filter (\<lambda>p. or0 (rating p) \<ge> 4) result)
         | Latest \<Rightarrow> result
         | Shuffle \<Rightarrow> fst (arraySortWith (randomCompare random) result 0)
         | Nearby \<Rightarrow>
             (case userLocation of
                None \<Rightarrow> result
              | Some loc \<Rightarrow> arraySort (distanceCompare activeTab loc) result)
         | Faraway \<Rightarrow>
             (case userLocation of
                None \<Rightarrow> result
              | Some loc \<Rightarrow> arraySort (distanceCompare activeTab loc) result)
         | OtherTab \<Rightarrow> result)"

section \<open>Revealing the feed page by page\<close>

definition PAGE_SIZE :: nat where
  "PAGE_SIZE = 9"

datatype ViewMode = Grid | MapMode

text \<open>
  The state the three pagination effects work on: \<^verbatim>\<open>visibleCount\<close>, the composed view
  \<^verbatim>\<open>filteredPhotos\<close> of the current render, and \<^verbatim>\<open>viewMode\<close>.
\<close>

record Pager =
  visibleCount :: nat
  composed :: "Photo list"
  viewMode :: ViewMode

text \<open>
  What can happen to the pager:
  \<^item> \<open>InputsChanged v m\<close>: \<^verbatim>\<open>activeCategory\<close>, \<^verbatim>\<open>activeTab\<close>, \<^verbatim>\<open>shuffleTrigger\<close> or
    \<^verbatim>\<open>viewMode\<close> changed; the view is recomposed to \<open>v\<close>, the mode is \<open>m\<close>, and the first
    effect runs \<^verbatim>\<open>setVisibleCount(PAGE_SIZE)\<close>;
  \<^item> \<open>TimerFired\<close>: the callback of the 3000 ms \<^verbatim>\<open>setTimeout\<close> runs;
  \<^item> \<open>SentinelIntersecting\<close>: the \<^verbatim>\<open>IntersectionObserver\<close> reports the sentinel; the
    observer is not installed in map mode;
  \<^item> \<open>CollectionChanged v\<close>: the collection or the user location changed and the view
    is recomposed to \<open>v\<close>; none of the dependencies of the first effect changed.
\<close>

datatype PagerEvent =
    InputsChanged "Photo list" ViewMode
  | TimerFired
  | SentinelIntersecting
  | CollectionChanged "Photo list"

text \<open>\<^verbatim>\<open>setVisibleCount(prev => Math.min(prev + PAGE_SIZE, filteredPhotos.length))\<close>\<close>

definition advance :: "Pager \<Rightarrow> Pager" where
  "advance s = s\<lparr>visibleCount := min (visibleCount s + PAGE_SIZE) (length (composed s))\<rparr>"

fun pagerStep :: "Pager \<Rightarrow> PagerEvent \<Rightarrow> Pager" where
  "pagerStep s (InputsChanged v m) = \<lparr>visibleCount = PAGE_SIZE, composed = v, viewMode = m\<rparr>"
| "pagerStep s TimerFired = advance s"
| "pagerStep s SentinelIntersecting = (if viewMode s = MapMode then s else advance s)"
| "pagerStep s (CollectionChanged v) = s\<lparr>composed := v\<rparr>"

text \<open>The first render: \<^verbatim>\<open>useState(PAGE_SIZE)\<close> and \<^verbatim>\<open>useState('grid')\<close>.\<close>

definition initialPager :: "Photo list \<Rightarrow> Pager" where
  "initialPager v = \<lparr>visibleCount = PAGE_SIZE, composed = v, viewMode = Grid\<rparr>"

fun pagerRun :: "Pager \<Rightarrow> PagerEvent list \<Rightarrow> Pager" where
  "pagerRun s [] = s"
| "pagerRun s (e # es) = pagerRun (pagerStep s e) es"

text \<open>\<^verbatim>\<open>filteredPhotos.slice(0, visibleCount)\<close>\<close>

definition visiblePhotos :: "Pager \<Rightarrow> Photo list" where
  "visiblePhotos s = take (visibleCount s) (composed s)"

section \<open>Saving the collection\<close>

text \<open>
  The error an attempt to write \<^verbatim>\<open>localStorage\<close> may throw, with the two fields the
  handler reads, and the outcome of one \<^verbatim>\<open>localStorage.setItem\<close>. Whether the storage
  accepts a write is decided by the browser, so the outcomes of the first write and of
  the retry are inputs of the model.
\<close>

record StorageError =
  error_name :: string
  error_code :: "int option"

datatype WriteOutcome = Written | Thrown StorageError

text \<open>The three \<^verbatim>\<open>alert\<close> messages of the handler, in the order of the source.\<close>

datatype Alert = CleanedUpAndReloading | CannotCleanUp | SaveFailed

text \<open>
  What one run of the saving effect leaves behind: the content of the slot
  \<^verbatim>\<open>lumina_photos\<close> (\<open>None\<close> when the slot is empty), the alerts shown, and whether
  \<^verbatim>\<open>window.location.reload()\<close> was called.
\<close>

record SaveEffect =
  slot :: "Photo list option"
  alerts :: "Alert list"
  reloaded :: bool

definition startsWith :: "string \<Rightarrow> string \<Rightarrow> bool" where
  "startsWith s pre = (take (length pre) s = pre)"

text \<open>An inline-encoded photo: its \<^verbatim>\<open>url\<close> starts with \<^verbatim>\<open>data:image\<close>.\<close>

definition isInline :: "Photo \<Rightarrow> bool" where
  "isInline p = startsWith (url p) ''data:image''"

definition isQuotaError :: "StorageError \<Rightarrow> bool" where
  "isQuotaError e = (error_name e = ''QuotaExceededError'' \<or> error_code e = Some 22)"

definition savePhotos :: "Photo list option \<Rightarrow> Photo list \<Rightarrow> WriteOutcome \<Rightarrow> WriteOutcome \<Rightarrow> SaveEffect" where
  "savePhotos before photos firstWrite retryWrite =
     (case firstWrite of
        Written \<Rightarrow> \<lparr>slot = Some photos, alerts = [], reloaded = False\<rparr>
      | Thrown e \<Rightarrow>
          if isQuotaError e then
            (let cleanPhotos = filter (\<lambda>p. \<not> startsWith (url p) ''data:image'') photos
             in if length cleanPhotos < length photos then
                  (case retryWrite of
                     Written \<Rightarrow>
                       \<lparr>slot = Some cleanPhotos, alerts = [CleanedUpAndReloading], reloaded = True\<rparr>
                   | Thrown retryErr \<Rightarrow>
                       \<lparr>slot = before, alerts = [SaveFailed], reloaded = False\<rparr>)
                else \<lparr>slot = before, alerts = [CannotCleanUp], reloaded = False\<rparr>)
          else \<lparr>slot = before, alerts = [], reloaded = False\<rparr>)"

section \<open>Loading the collection\<close>

text \<open>The values \<^verbatim>\<open>JSON.parse\<close> can return.\<close>

datatype json =
    JNull
  | JBool bool
  | JNum real
  | JStr string
  | JArr "json list"
  | JObj "(string \<times> json) list"

datatype 'a outcome = Throws | Returns 'a

text \<open>
  The initialiser of the \<^verbatim>\<open>photos\<close> state. \<^verbatim>\<open>localStorage.getItem\<close> and \<^verbatim>\<open>JSON.parse\<close>
  belong to the platform: the outcome of each is an input, \<open>saved\<close> for the read
  (\<open>Returns None\<close> is \<^verbatim>\<open>null\<close>) and \<open>parsed\<close> for \<^verbatim>\<open>JSON.parse(saved)\<close>, which the code
  evaluates only when \<open>saved\<close> is a non-empty string. Types are erased at run time, so
  the result is whatever array was parsed. \<open>INITIAL_PHOTOS\<close> is the seed, drawn once
  when the module is loaded.
\<close>

definition loadPhotos :: "json list \<Rightarrow> string option outcome \<Rightarrow> json outcome \<Rightarrow> json list" where
  "loadPhotos INITIAL_PHOTOS saved parsed =
     (case saved of
        Throws \<Rightarrow> INITIAL_PHOTOS
      | Returns None \<Rightarrow> INITIAL_PHOTOS
      | Returns (Some raw) \<Rightarrow>
          if raw = [] then INITIAL_PHOTOS
          else (case parsed of
                  Throws \<Rightarrow> INITIAL_PHOTOS
                | Returns (JArr items) \<Rightarrow> items
                | Returns _ \<Rightarrow> INITIAL_PHOTOS))"

definition fieldIs :: "(json \<Rightarrow> bool) \<Rightarrow> (string \<times> json) list \<Rightarrow> string \<Rightarrow> bool" where
  "fieldIs ok fs k = (case map_of fs k of None \<Rightarrow> False | Some v \<Rightarrow> ok v)"

definition isStr :: "json \<Rightarrow> bool" where
  "isStr j = (case j of JStr _ \<Rightarrow> True | _ \<Rightarrow> False)"

definition isNum :: "json \<Rightarrow> bool" where
  "isNum j = (case j of JNum _ \<Rightarrow> True | _ \<Rightarrow> False)"

definition isObj :: "json \<Rightarrow> bool" where
  "isObj j = (case j of JObj _ \<Rightarrow> True | _ \<Rightarrow> False)"

text \<open>
  Modelled from the spec: a Photo-shaped record, which the source never checks for.
  The spec lists the fields of a photo: \<open>id\<close>, \<open>url\<close>, \<open>title\<close>, \<open>category\<close>, \<open>width\<close>,
  \<open>height\<close>, an optional \<open>rating\<close> and the structured \<open>exif\<close>.
\<close>

definition photoShaped :: "json \<Rightarrow> bool" where
  "photoShaped j =
     (case j of
        JObj fs \<Rightarrow>
          fieldIs isStr fs ''id'' \<and> fieldIs isStr fs ''url'' \<and>
          fieldIs isStr fs ''title'' \<and> fieldIs isStr fs ''category'' \<and>
          fieldIs isNum fs ''width'' \<and> fieldIs isNum fs ''height'' \<and>
          fieldIs isObj fs ''exif''
      | _ \<Rightarrow> False)"

section \<open>Concrete inputs\<close>

definition noExif :: Exif where
  "noExif = \<lparr>camera = ''Leica M11'', lens = ''Summilux 35mm'', focalLength = ''35mm'',
     aperture = ''f/5.6'', shutterSpeed = ''1/250s'', iso = ''100'', location = [],
     date = ''2023-10-12'', latitude = None, longitude = None\<rparr>"

text \<open>A landscape photo of 800 by 600 with the given id, url, rating, latitude and
  longitude.\<close>

definition mkPhoto :: "string \<Rightarrow> string \<Rightarrow> real option \<Rightarrow> real option \<Rightarrow> real option \<Rightarrow> Photo" where
  "mkPhoto i u r la lo =
     \<lparr>photo_id = i, url = u, title = i, category = LANDSCAPE, width = Some 800,
      height = Some 600, rating = r, exif = noExif\<lparr>latitude := la, longitude := lo\<rparr>\<rparr>"

definition photoA :: Photo where
  "photoA = mkPhoto ''A'' ''https://picsum.photos/id/16/800/600'' (Some 5) (Some 10) (Some 20)"

definition photoB :: Photo where
  "photoB = mkPhoto ''B'' ''https://picsum.photos/id/28/900/600'' (Some 3) None None"

definition photoC :: Photo where
  "photoC = mkPhoto ''C'' ''https://picsum.photos/id/106/800/600'' (Some 4) (Some 0) (Some (-90))"

definition photoD :: Photo where
  "photoD = mkPhoto ''D'' ''data:image/png;base64,iVBORw0KGgo='' None (Some 0) (Some 90)"

text \<open>A source of random numbers that always returns \<open>0\<close>.\<close>

definition noRandom :: "nat \<Rightarrow> real" where
  "noRandom k = 0"

definition quotaError :: StorageError where
  "quotaError = \<lparr>error_name = ''QuotaExceededError'', error_code = Some 22\<rparr>"

text \<open>A stored photo, as \<^verbatim>\<open>JSON.parse\<close> returns it, with the fields of the first seed
  photo.\<close>

definition storedPhoto :: json where
  "storedPhoto = JObj [(''id'', JStr ''1''), (''url'', JStr ''https://picsum.photos/id/16/800/600''),
     (''title'', JStr ''Misty mountains''), (''category'', JStr ''landscape''),
     (''width'', JNum 800), (''height'', JNum 600), (''rating'', JNum 5),
     (''exif'', JObj [(''camera'', JStr ''Leica M11''), (''date'', JStr ''2023-10-12''),
        (''latitude'', JNum 46.8182), (''longitude'', JNum 8.2275)])]"

lemmas photo_defs = photoA_def photoB_def photoC_def photoD_def mkPhoto_def noExif_def

lemmas distance_defs = getDistanceFromLatLonInKm_def deg2rad_def atan2_def

section \<open>The sort\<close>

lemma insertBy_Nil: "insertBy cmp x [] = [x]"
  by (simp add: insertBy_def)

lemma insertBy_Cons:
  "insertBy cmp x (y # ys) = (if cmp x y \<le> 0 then x # y # ys else y # insertBy cmp x ys)"
  by (simp add: insertBy_def split: prod.splits)

lemma arraySort_Nil: "arraySort cmp [] = []"
  by (simp add: arraySort_def)

lemma arraySort_Cons: "arraySort cmp (x # xs) = insertBy cmp x (arraySort cmp xs)"
  by (simp add: arraySort_def insertBy_def split: prod.splits)

lemmas sort_simps = arraySort_Nil arraySort_Cons insertBy_Nil insertBy_Cons

text \<open>
  With a comparator that compares by a key, the model of the built-in sort is the
  stable sort by that key.
\<close>

lemma insertBy_key:
  fixes key :: "'a \<Rightarrow> real"
  assumes "\<And>a b. (cmp a b \<le> 0) = (key a \<le> key b)"
  shows "insertBy cmp x ys = insort_key key x ys"
  by (induction ys) (simp_all add: insertBy_Nil insertBy_Cons assms)

lemma arraySort_key:
  fixes key :: "'a \<Rightarrow> real"
  assumes "\<And>a b. (cmp a b \<le> 0) = (key a \<le> key b)"
  shows "arraySort cmp xs = sort_key key xs"
  by (induction xs) (simp_all add: arraySort_Nil arraySort_Cons insertBy_key [OF assms])

text \<open>Whatever the comparator answers, the sort only moves elements.\<close>

lemma mset_insertWith: "mset (fst (insertWith cmp x ys s)) = add_mset x (mset ys)"
proof (induction ys arbitrary: s)
  case Nil
  show ?case by simp
next
  case (Cons y ys)
  obtain c s' where c: "cmp x y s = (c, s')"
    by (cases "cmp x y s")
  obtain zs s'' where r: "insertWith cmp x ys s' = (zs, s'')"
    by (cases "insertWith cmp x ys s'")
  with Cons.IH [of s'] have "mset zs = add_mset x (mset ys)" by simp
  with c r show ?case by simp
qed

lemma mset_arraySortWith: "mset (fst (arraySortWith cmp xs s)) = mset xs"
proof (induction xs arbitrary: s)
  case Nil
  show ?case by simp
next
  case (Cons x xs)
  obtain ys s' where r: "arraySortWith cmp xs s = (ys, s')"
    by (cases "arraySortWith cmp xs s")
  with Cons.IH [of s] have "mset ys = mset xs" by simp
  with r show ?case by (simp add: mset_insertWith)
qed

section \<open>The distance\<close>

text \<open>
  Over the real numbers the argument of the two square roots stays between \<open>0\<close> and
  \<open>1\<close> for all angles, so neither root is taken of a negative number. In floating
  point the argument can round above \<open>1\<close> for nearly antipodal points and the distance
  is then NaN; the lemmas of this section and the two orderings of the next are
  facts of the real-number model only.
\<close>

lemma sin_half_sq:
  fixes x :: real
  shows "sin (x / 2) * sin (x / 2) = (1 - cos x) / 2"
proof -
  have "cos x = cos (2 * (x / 2))" by simp
  also have "\<dots> = 1 - 2 * (sin (x / 2))\<^sup>2" by (rule cos_double_sin)
  finally show ?thesis by (simp add: power2_eq_square)
qed

lemma unit_interval_mix:
  fixes t :: real
  assumes "0 \<le> t" "t \<le> 1" "0 \<le> p" "p \<le> 1" "0 \<le> q" "q \<le> 1"
  shows "0 \<le> (1 - t) * p + t * q \<and> (1 - t) * p + t * q \<le> 1"
proof
  show "0 \<le> (1 - t) * p + t * q" using assms by simp
  have "(1 - t) * p \<le> (1 - t) * 1" using assms by (intro mult_left_mono) simp_all
  moreover have "t * q \<le> t * 1" using assms by (intro mult_left_mono) simp_all
  ultimately show "(1 - t) * p + t * q \<le> 1" by simp
qed

lemma haversine_arg_range:
  fixes u v w :: real
  defines "a \<equiv> sin ((v - u) / 2) * sin ((v - u) / 2) + cos u * cos v * sin (w / 2) * sin (w / 2)"
  shows "0 \<le> a \<and> a \<le> 1"
proof -
  define t where "t = (1 - cos w) / 2"
  define p where "p = (1 - cos (v - u)) / 2"
  define q where "q = (1 + cos (v + u)) / 2"
  have t: "0 \<le> t" "t \<le> 1"
    using cos_le_one [of w] cos_ge_minus_one [of w] by (simp_all add: t_def)
  have p: "0 \<le> p" "p \<le> 1"
    using cos_le_one [of "v - u"] cos_ge_minus_one [of "v - u"] by (simp_all add: p_def)
  have "0 \<le> 1 + cos (v + u)"
    using cos_ge_minus_one [of "v + u"] by linarith
  then have q: "0 \<le> q" "q \<le> 1"
    by (simp_all add: q_def)
  have "a = p + cos u * cos v * t"
    by (simp add: a_def p_def t_def sin_half_sq [symmetric] mult.assoc)
  also have "\<dots> = (1 - t) * p + t * q"
    by (simp add: p_def q_def cos_diff cos_add field_simps)
  finally have "a = (1 - t) * p + t * q" .
  with unit_interval_mix [OF t p q] show ?thesis by simp
qed

lemma atan2_quadrant: "0 \<le> y \<Longrightarrow> 0 \<le> x \<Longrightarrow> 0 \<le> atan2 y x \<and> atan2 y x \<le> pi / 2"
  using arctan_ubound [of "y / x"] by (auto simp: atan2_def less_imp_le)

text \<open>A distance is between \<open>0\<close> and half the circumference of the sphere.\<close>

lemma distance_range:
  "0 \<le> getDistanceFromLatLonInKm lat1 lon1 lat2 lon2 \<and>
   getDistanceFromLatLonInKm lat1 lon1 lat2 lon2 \<le> 6371 * pi"
proof -
  define a where "a = sin (deg2rad (lat2 - lat1) / 2) * sin (deg2rad (lat2 - lat1) / 2) +
              cos (deg2rad lat1) * cos (deg2rad lat2) *
              sin (deg2rad (lon2 - lon1) / 2) * sin (deg2rad (lon2 - lon1) / 2)"
  have d: "deg2rad (lat2 - lat1) = deg2rad lat2 - deg2rad lat1"
    by (simp add: deg2rad_def left_diff_distrib)
  have "0 \<le> a \<and> a \<le> 1"
    unfolding a_def d by (rule haversine_arg_range)
  then have "0 \<le> sqrt a" "0 \<le> sqrt (1 - a)" by simp_all
  from atan2_quadrant [OF this]
  have "0 \<le> atan2 (sqrt a) (sqrt (1 - a))" "atan2 (sqrt a) (sqrt (1 - a)) \<le> pi / 2"
    by simp_all
  moreover have "getDistanceFromLatLonInKm lat1 lon1 lat2 lon2
                 = 6371 * (2 * atan2 (sqrt a) (sqrt (1 - a)))"
    by (simp add: getDistanceFromLatLonInKm_def Let_def a_def)
  ultimately show ?thesis by simp
qed

text \<open>So no distance reaches the sentinel.\<close>

lemma distance_below_sentinel: "getDistanceFromLatLonInKm lat1 lon1 lat2 lon2 < 99999"
proof -
  have "getDistanceFromLatLonInKm lat1 lon1 lat2 lon2 \<le> 6371 * pi"
    using distance_range [of lat1 lon1 lat2 lon2] by simp
  moreover have "6371 * pi < 6371 * 4"
    using pi_less_4 by simp
  ultimately show ?thesis by linarith
qed

section \<open>The distance tabs\<close>

lemma nearby_key:
  "(distanceCompare Nearby loc a b \<le> 0) = (photoDistance loc a \<le> photoDistance loc b)"
  by (simp add: distanceCompare_def)

lemma faraway_key:
  "(distanceCompare Faraway loc a b \<le> 0) = (- photoDistance loc a \<le> - photoDistance loc b)"
  by (simp add: distanceCompare_def)

lemma nearby_eq:
  "filteredPhotos ps c Nearby e (Some loc) rnd =
     sort_key (photoDistance loc) (filter (categoryFilter c) ps)"
  by (simp add: filteredPhotos_def arraySort_key [where key = "photoDistance loc", OF nearby_key])

lemma faraway_eq:
  "filteredPhotos ps c Faraway e (Some loc) rnd =
     sort_key (\<lambda>p. - photoDistance loc p) (filter (categoryFilter c) ps)"
  by (simp add: filteredPhotos_def
        arraySort_key [where key = "\<lambda>p. - photoDistance loc p", OF faraway_key])

text \<open>What the two tabs do sort by: the value of \<open>photoDistance\<close>, ascending in the
  nearby tab and descending in the faraway tab.\<close>

lemma nearby_ascending:
  "sorted_wrt (\<lambda>a b. photoDistance loc a \<le> photoDistance loc b)
     (filteredPhotos ps c Nearby e (Some loc) rnd)"
proof -
  have "sorted (map (photoDistance loc) (filteredPhotos ps c Nearby e (Some loc) rnd))"
    by (simp add: nearby_eq)
  then show ?thesis by (simp add: sorted_map)
qed

lemma faraway_descending:
  "sorted_wrt (\<lambda>a b. photoDistance loc a \<ge> photoDistance loc b)
     (filteredPhotos ps c Faraway e (Some loc) rnd)"
proof -
  have "sorted (map (\<lambda>p. - photoDistance loc p) (filteredPhotos ps c Faraway e (Some loc) rnd))"
    by (simp add: faraway_eq)
  then show ?thesis by (simp add: sorted_map)
qed

text \<open>In the nearby tab a photo without coordinates stays before a photo on the
  equator that follows it in the collection: both are compared by the sentinel.\<close>

lemma nearby_missing_before_equator:
  "filteredPhotos [photoB, photoD] ALL_cat Nearby 0 (Some \<lparr>lat = 0, lng = 90\<rparr>) noRandom
     = [photoB, photoD]"
  by (simp add: filteredPhotos_def categoryFilter_def sort_simps distanceCompare_def
        photoDistance_def photo_defs)

text \<open>
  C1. In the faraway tab with the user at (10, 20), photo A at (10, 20) and photo B
  without coordinates: B gets the sentinel \<open>99999\<close>, A the distance \<open>0\<close>, and the
  descending order puts B, the photo without coordinates, before A.
\<close>

theorem C1_faraway_sentinel_first:
  "filteredPhotos [photoA, photoB] ALL_cat Faraway 0 (Some \<lparr>lat = 10, lng = 20\<rparr>) noRandom
     = [photoB, photoA] \<and>
   photoDistance \<lparr>lat = 10, lng = 20\<rparr> photoB = 99999 \<and>
   photoDistance \<lparr>lat = 10, lng = 20\<rparr> photoA = 0"
  by (simp add: filteredPhotos_def categoryFilter_def sort_simps distanceCompare_def
        photoDistance_def photo_defs distance_defs)

text \<open>
  C5. In the nearby tab with the user at (0, 90), photo C at (0, -90) and photo D at
  (0, 90): both have both coordinates, both get the sentinel because their latitude is
  \<open>0\<close>, and the view keeps C before D although C is half the globe away from the user
  and D is where the user is.
\<close>

theorem C5_nearby_zero_latitude:
  "filteredPhotos [photoC, photoD] ALL_cat Nearby 0 (Some \<lparr>lat = 0, lng = 90\<rparr>) noRandom
     = [photoC, photoD] \<and>
   getDistanceFromLatLonInKm 0 90 0 (-90) = 6371 * pi \<and>
   getDistanceFromLatLonInKm 0 90 0 90 = 0"
  by (simp add: filteredPhotos_def categoryFilter_def sort_simps distanceCompare_def
        photoDistance_def photo_defs distance_defs)

text \<open>
  C9. In the nearby and faraway tabs a photo whose latitude or longitude is exactly
  \<open>0\<close> is compared by the sentinel \<open>99999\<close>, as the same photo without coordinates
  is, and the sentinel is not a distance the haversine formula gives.
\<close>

theorem C9_zero_coordinate:
  assumes "latitude (exif p) = Some 0 \<or> longitude (exif p) = Some 0"
  shows "photoDistance loc p = 99999 \<and>
         photoDistance loc p =
           photoDistance loc (p\<lparr>exif := (exif p)\<lparr>latitude := None, longitude := None\<rparr>\<rparr>) \<and>
         (\<forall>la lo. getDistanceFromLatLonInKm (lat loc) (lng loc) la lo \<noteq> photoDistance loc p)"
proof -
  have s: "photoDistance loc p = 99999"
    using assms by (auto simp: photoDistance_def split: option.splits)
  moreover have "photoDistance loc (p\<lparr>exif := (exif p)\<lparr>latitude := None, longitude := None\<rparr>\<rparr>) = 99999"
    by (simp add: photoDistance_def)
  moreover have "\<forall>la lo. getDistanceFromLatLonInKm (lat loc) (lng loc) la lo \<noteq> photoDistance loc p"
    using distance_below_sentinel [of "lat loc" "lng loc"] s by (metis less_irrefl)
  ultimately show ?thesis by simp
qed

theorem C9_zero_coordinate_witness:
  "(latitude (exif photoC) = Some 0 \<or> longitude (exif photoC) = Some 0) \<and>
   photoDistance \<lparr>lat = 0, lng = 90\<rparr> photoC = 99999"
proof -
  have h: "latitude (exif photoC) = Some 0 \<or> longitude (exif photoC) = Some 0"
    by (simp add: photo_defs)
  from C9_zero_coordinate [OF h] h show ?thesis by blast
qed

section \<open>The featured tab\<close>

lemma ratingCompare_key:
  "(ratingCompare a b \<le> 0) = (- or0 (rating a) \<le> - or0 (rating b))"
  by (simp add: ratingCompare_def)

lemma featured_eq:
  "filteredPhotos ps c Featured e loc rnd =
     sort_key (\<lambda>p. - or0 (rating p))
       (filter (\<lambda>p. or0 (rating p) \<ge> 4) (filter (categoryFilter c) ps))"
  by (simp add: filteredPhotos_def
        arraySort_key [where key = "\<lambda>p. - or0 (rating p)", OF ratingCompare_key])

lemma or0_ge4: "4 \<le> or0 x \<Longrightarrow> \<exists>r. x = Some r \<and> 4 \<le> r"
  by (cases x) (auto simp: or0_def split: if_splits)

text \<open>The scenario of the spec: ratings 5, 3, 4 give the photo rated 5, then the photo
  rated 4.\<close>

lemma featured_scenario:
  "filteredPhotos [photoA, photoB, photoC] ALL_cat Featured 0 None noRandom = [photoA, photoC]"
  by (simp add: filteredPhotos_def categoryFilter_def sort_simps ratingCompare_def or0_def
        photo_defs)

text \<open>
  C6. In the featured (curated) tab, for every collection and category filter, every
  photo of the view has a rating of at least 4, the view is sorted by rating in
  non-increasing order, and for each rating the photos with that rating are in the
  order they have in the filtered collection (the sort is stable).
\<close>

theorem C6_featured:
  "(\<forall>p \<in> set (filteredPhotos ps c Featured e loc rnd). \<exists>r. rating p = Some r \<and> 4 \<le> r) \<and>
   sorted_wrt (\<lambda>a b. or0 (rating a) \<ge> or0 (rating b)) (filteredPhotos ps c Featured e loc rnd) \<and>
   (\<forall>r. filter (\<lambda>p. or0 (rating p) = r) (filteredPhotos ps c Featured e loc rnd) =
        filter (\<lambda>p. or0 (rating p) = r)
          (filter (\<lambda>p. or0 (rating p) \<ge> 4) (filter (categoryFilter c) ps)))"
proof (intro conjI allI ballI)
  fix p assume "p \<in> set (filteredPhotos ps c Featured e loc rnd)"
  then have "4 \<le> or0 (rating p)" by (simp add: featured_eq)
  then show "\<exists>r. rating p = Some r \<and> 4 \<le> r" by (rule or0_ge4)
next
  have "sorted (map (\<lambda>p. - or0 (rating p)) (filteredPhotos ps c Featured e loc rnd))"
    by (simp add: featured_eq)
  then show "sorted_wrt (\<lambda>a b. or0 (rating a) \<ge> or0 (rating b))
               (filteredPhotos ps c Featured e loc rnd)"
    by (simp add: sorted_map)
next
  fix r
  have "filter (\<lambda>p. - or0 (rating p) = - r) (filteredPhotos ps c Featured e loc rnd) =
        filter (\<lambda>p. - or0 (rating p) = - r)
          (filter (\<lambda>p. or0 (rating p) \<ge> 4) (filter (categoryFilter c) ps))"
    unfolding featured_eq by (rule sort_key_stable)
  then show "filter (\<lambda>p. or0 (rating p) = r) (filteredPhotos ps c Featured e loc rnd) =
        filter (\<lambda>p. or0 (rating p) = r)
          (filter (\<lambda>p. or0 (rating p) \<ge> 4) (filter (categoryFilter c) ps))"
    by simp
qed

theorem C6_featured_witness:
  "filteredPhotos [photoA, photoB, photoC] ALL_cat Featured 0 None noRandom = [photoA, photoC] \<and>
   sorted_wrt (\<lambda>a b. or0 (rating a) \<ge> or0 (rating b)) [photoA, photoC] \<and>
   map rating [photoA, photoC] = [Some 5, Some 4]"
proof -
  have r: "map rating [photoA, photoC] = [Some 5, Some 4]"
    by (simp add: photo_defs)
  from C6_featured [of "[photoA, photoB, photoC]" ALL_cat 0 None noRandom]
  have "sorted_wrt (\<lambda>a b. or0 (rating a) \<ge> or0 (rating b))
          (filteredPhotos [photoA, photoB, photoC] ALL_cat Featured 0 None noRandom)"
    by blast
  with featured_scenario r show ?thesis by simp
qed

section \<open>The shuffle tab and the random numbers\<close>

text \<open>The shuffle does depend on the random numbers it draws.\<close>

lemma shuffle_depends_on_random:
  "filteredPhotos [photoA, photoB] ALL_cat Shuffle 0 None (\<lambda>k. 0) = [photoA, photoB] \<and>
   filteredPhotos [photoA, photoB] ALL_cat Shuffle 0 None (\<lambda>k. 9 / 10) = [photoB, photoA]"
  by (simp add: filteredPhotos_def categoryFilter_def randomCompare_def)

text \<open>
  C8. In every tab other than the shuffle tab the composed view is a function of the
  collection, the category, the tab, the shuffle epoch and the user location alone:
  two compositions with these inputs equal give the same view, whatever random
  numbers the platform would have returned.
\<close>

theorem C8_deterministic:
  assumes "tab \<noteq> Shuffle"
  shows "filteredPhotos ps c tab e loc rnd = filteredPhotos ps c tab e loc rnd'"
  using assms by (cases tab) (simp_all add: filteredPhotos_def)

theorem C8_deterministic_witness:
  "Nearby \<noteq> Shuffle \<and>
   filteredPhotos [photoA, photoB] ALL_cat Nearby 0 (Some \<lparr>lat = 10, lng = 20\<rparr>) (\<lambda>k. 0) =
   filteredPhotos [photoA, photoB] ALL_cat Nearby 0 (Some \<lparr>lat = 10, lng = 20\<rparr>) (\<lambda>k. 9 / 10)"
proof -
  have h: "Nearby \<noteq> Shuffle" by simp
  from C8_deterministic [OF h] show ?thesis by simp
qed

text \<open>
  C10. In the shuffle tab, for every collection, category filter and sequence of
  random numbers, the composed view has the same photos with the same multiplicities
  as the collection filtered by category, and so the same length.
\<close>

theorem C10_shuffle_permutation:
  "mset (filteredPhotos ps c Shuffle e loc rnd) = mset (filter (categoryFilter c) ps) \<and>
   length (filteredPhotos ps c Shuffle e loc rnd) = length (filter (categoryFilter c) ps)"
proof -
  have m: "mset (filteredPhotos ps c Shuffle e loc rnd) = mset (filter (categoryFilter c) ps)"
    by (simp add: filteredPhotos_def mset_arraySortWith)
  from m have "size (mset (filteredPhotos ps c Shuffle e loc rnd))
             = size (mset (filter (categoryFilter c) ps))"
    by simp
  then have "length (filteredPhotos ps c Shuffle e loc rnd) = length (filter (categoryFilter c) ps)"
    by (simp only: size_mset)
  with m show ?thesis by simp
qed

section \<open>The window\<close>

lemma advance_exact:
  "visibleCount (advance s) = min (visibleCount s + PAGE_SIZE) (length (composed s)) \<and>
   composed (advance s) = composed s \<and> viewMode (advance s) = viewMode s"
  by (simp add: advance_def)

text \<open>
  C2, as amended. Each advance, by the timer in either view mode or by the sentinel
  outside map mode, sets the window size to the minimum of the window size plus
  \<open>PAGE_SIZE\<close> and the length of the composed view and changes nothing else, so right
  after an advance the window size is at most the length of the view; in map mode the
  sentinel changes nothing. A change of a composition-defining input sets the window
  size to \<open>PAGE_SIZE\<close>, which is 9, whatever the length of the new view, so that right
  after it the window size is at most the length of the view exactly when the view has
  at least \<open>PAGE_SIZE\<close> photos. A change of the collection alone replaces the view and
  keeps the window size. The visible slice is the prefix of the view of that size and
  never has more photos than the view.
\<close>

theorem C2_window_clamped:
  "PAGE_SIZE = 9 \<and>
   visibleCount (pagerStep s TimerFired) = min (visibleCount s + PAGE_SIZE) (length (composed s)) \<and>
   composed (pagerStep s TimerFired) = composed s \<and>
   viewMode (pagerStep s TimerFired) = viewMode s \<and>
   visibleCount (pagerStep s TimerFired) \<le> length (composed (pagerStep s TimerFired)) \<and>
   (viewMode s = Grid \<longrightarrow>
      visibleCount (pagerStep s SentinelIntersecting)
        = min (visibleCount s + PAGE_SIZE) (length (composed s)) \<and>
      composed (pagerStep s SentinelIntersecting) = composed s \<and>
      viewMode (pagerStep s SentinelIntersecting) = viewMode s \<and>
      visibleCount (pagerStep s SentinelIntersecting)
        \<le> length (composed (pagerStep s SentinelIntersecting))) \<and>
   (viewMode s = MapMode \<longrightarrow> pagerStep s SentinelIntersecting = s) \<and>
   pagerStep s (InputsChanged v m) = \<lparr>visibleCount = PAGE_SIZE, composed = v, viewMode = m\<rparr> \<and>
   (visibleCount (pagerStep s (InputsChanged v m))
        \<le> length (composed (pagerStep s (InputsChanged v m)))) = (PAGE_SIZE \<le> length v) \<and>
   visibleCount (pagerStep s (CollectionChanged v)) = visibleCount s \<and>
   composed (pagerStep s (CollectionChanged v)) = v \<and>
   visiblePhotos s = take (visibleCount s) (composed s) \<and>
   length (visiblePhotos s) = min (visibleCount s) (length (composed s)) \<and>
   length (visiblePhotos s) \<le> length (composed s)"
proof -
  have t: "visibleCount (pagerStep s TimerFired) = min (visibleCount s + PAGE_SIZE) (length (composed s))"
    "composed (pagerStep s TimerFired) = composed s"
    "viewMode (pagerStep s TimerFired) = viewMode s"
    by (simp_all add: advance_exact)
  have g: "viewMode s = Grid \<longrightarrow>
      visibleCount (pagerStep s SentinelIntersecting)
        = min (visibleCount s + PAGE_SIZE) (length (composed s)) \<and>
      composed (pagerStep s SentinelIntersecting) = composed s \<and>
      viewMode (pagerStep s SentinelIntersecting) = viewMode s \<and>
      visibleCount (pagerStep s SentinelIntersecting)
        \<le> length (composed (pagerStep s SentinelIntersecting))"
    by (simp add: advance_exact)
  have m: "viewMode s = MapMode \<longrightarrow> pagerStep s SentinelIntersecting = s"
    by simp
  have r: "pagerStep s (InputsChanged v m) = \<lparr>visibleCount = PAGE_SIZE, composed = v, viewMode = m\<rparr>"
    by simp
  have c: "visibleCount (pagerStep s (CollectionChanged v)) = visibleCount s"
    "composed (pagerStep s (CollectionChanged v)) = v"
    by simp_all
  have w: "visiblePhotos s = take (visibleCount s) (composed s)"
    "length (visiblePhotos s) = min (visibleCount s) (length (composed s))"
    by (simp_all add: visiblePhotos_def min.commute)
  from t g m r c w show ?thesis
    by (simp add: PAGE_SIZE_def)
qed

theorem C2_window_clamped_witness:
  "viewMode (initialPager (replicate 20 photoA)) = Grid \<and>
   visibleCount (initialPager (replicate 20 photoA)) = 9 \<and>
   visibleCount (pagerStep (initialPager (replicate 20 photoA)) SentinelIntersecting) = 18 \<and>
   visibleCount (pagerRun (initialPager (replicate 20 photoA)) [SentinelIntersecting, TimerFired]) = 20 \<and>
   viewMode (pagerStep (initialPager (replicate 20 photoA)) (InputsChanged (replicate 20 photoA) MapMode))
     = MapMode \<and>
   pagerStep (pagerStep (initialPager (replicate 20 photoA)) (InputsChanged (replicate 20 photoA) MapMode))
       SentinelIntersecting
     = pagerStep (initialPager (replicate 20 photoA)) (InputsChanged (replicate 20 photoA) MapMode)"
proof -
  let ?s0 = "initialPager (replicate 20 photoA)"
  let ?s1 = "pagerStep ?s0 SentinelIntersecting"
  let ?m = "pagerStep ?s0 (InputsChanged (replicate 20 photoA) MapMode)"
  have g0: "viewMode ?s0 = Grid" and v0: "visibleCount ?s0 = 9"
    and l0: "length (composed ?s0) = 20"
    by (simp_all add: initialPager_def PAGE_SIZE_def)
  from C2_window_clamped [of ?s0] g0
  have s1: "visibleCount ?s1 = min (visibleCount ?s0 + PAGE_SIZE) (length (composed ?s0))"
    and c1: "composed ?s1 = composed ?s0" and p: "PAGE_SIZE = 9"
    by blast+
  from s1 v0 l0 p have v1: "visibleCount ?s1 = 18" by simp
  from C2_window_clamped [of ?s1]
  have "visibleCount (pagerStep ?s1 TimerFired) = min (visibleCount ?s1 + PAGE_SIZE) (length (composed ?s1))"
    by blast
  with v1 c1 l0 p have v2: "visibleCount (pagerStep ?s1 TimerFired) = 20" by simp
  have mm: "viewMode ?m = MapMode" by simp
  from C2_window_clamped [of ?m] mm have n: "pagerStep ?m SentinelIntersecting = ?m" by blast
  have run: "pagerRun ?s0 [SentinelIntersecting, TimerFired] = pagerStep ?s1 TimerFired" by simp
  from g0 v0 v1 v2 mm n run show ?thesis by (simp only: simp_thms)
qed

text \<open>
  The claim as stated fails right after a reset: from the first render with two
  photos, a change of category that leaves one photo sets the window size to 9.
\<close>

theorem C2_reset_counterexample:
  "\<not> visibleCount (pagerRun (initialPager [photoA, photoB]) [InputsChanged [photoA] Grid])
      \<le> length (composed (pagerRun (initialPager [photoA, photoB]) [InputsChanged [photoA] Grid]))"
  by (simp add: PAGE_SIZE_def)

section \<open>Recovery from a full storage\<close>

lemma clean_shorter:
  "(length (filter (\<lambda>p. \<not> startsWith (url p) ''data:image'') photos) < length photos)
     = list_ex isInline photos"
proof (induction photos)
  case Nil
  show ?case by simp
next
  case (Cons p ps)
  have "length (filter (\<lambda>p. \<not> startsWith (url p) ''data:image'') ps) < Suc (length ps)"
    by (simp add: less_Suc_eq_le)
  with Cons show ?case by (auto simp: isInline_def)
qed

text \<open>
  C3, as amended. When the first write fails with a quota error: if the collection
  has an inline photo and the retried write succeeds, the slot holds exactly the
  photos that are not inline, in their order, the cleanup is announced and the page
  reloads; if the collection has an inline photo and the retried write fails too,
  the slot keeps its previous content, a failed save is announced and nothing
  reloads; if the collection has no inline photo, the slot keeps its previous content,
  the impossibility of a cleanup is announced and nothing else happens.
\<close>

theorem C3_quota_recovery:
  assumes "isQuotaError e"
  shows "savePhotos before photos (Thrown e) retry =
     (if list_ex isInline photos then
        (case retry of
           Written \<Rightarrow> \<lparr>slot = Some (filter (\<lambda>p. \<not> isInline p) photos),
                        alerts = [CleanedUpAndReloading], reloaded = True\<rparr>
         | Thrown r \<Rightarrow> \<lparr>slot = before, alerts = [SaveFailed], reloaded = False\<rparr>)
      else \<lparr>slot = before, alerts = [CannotCleanUp], reloaded = False\<rparr>)"
proof -
  have f: "filter (\<lambda>p. \<not> startsWith (url p) ''data:image'') photos
         = filter (\<lambda>p. \<not> isInline p) photos"
    by (simp add: isInline_def)
  show ?thesis
    using assms clean_shorter [of photos]
    by (simp add: savePhotos_def Let_def f split: WriteOutcome.splits)
qed

theorem C3_quota_recovery_witness:
  "isQuotaError quotaError \<and>
   savePhotos (Some [photoD]) [photoA, photoD] (Thrown quotaError) Written =
     \<lparr>slot = Some [photoA], alerts = [CleanedUpAndReloading], reloaded = True\<rparr>"
proof -
  have q: "isQuotaError quotaError"
    by (simp add: isQuotaError_def quotaError_def)
  have i: "list_ex isInline [photoA, photoD]"
    "filter (\<lambda>p. \<not> isInline p) [photoA, photoD] = [photoA]"
    by (simp_all add: isInline_def startsWith_def photo_defs)
  from C3_quota_recovery [OF q, of "Some [photoD]" "[photoA, photoD]" Written] q i
  show ?thesis by simp
qed

text \<open>
  The claim as stated fails when the retried write fails as well: the slot keeps the
  inline photo D and never receives the network photo A, and the alert is that of a
  failed save, with no reload.
\<close>

theorem C3_quota_counterexample:
  "isQuotaError quotaError \<and> list_ex isInline [photoA, photoD] \<and>
   slot (savePhotos (Some [photoD]) [photoA, photoD] (Thrown quotaError) (Thrown quotaError))
     = Some [photoD] \<and>
   alerts (savePhotos (Some [photoD]) [photoA, photoD] (Thrown quotaError) (Thrown quotaError))
     = [SaveFailed] \<and>
   \<not> reloaded (savePhotos (Some [photoD]) [photoA, photoD] (Thrown quotaError) (Thrown quotaError))"
  by (simp add: savePhotos_def isQuotaError_def quotaError_def isInline_def startsWith_def
        photo_defs)

section \<open>Loading\<close>

lemma storedPhoto_shaped: "photoShaped storedPhoto"
  by (simp add: photoShaped_def storedPhoto_def fieldIs_def isStr_def isNum_def isObj_def)

text \<open>
  C4, as amended. The initialiser returns the parsed value exactly when the read
  returns a non-empty string, parsing it does not throw and the parsed value is an
  array, whatever the elements of the array are; in every other case it returns the
  seed. It has a result in every case: no failure of the read or of the parse
  propagates.
\<close>

theorem C4_load:
  "(\<forall>raw items. saved = Returns (Some raw) \<and> raw \<noteq> [] \<and> parsed = Returns (JArr items) \<longrightarrow>
       loadPhotos seed saved parsed = items) \<and>
   ((\<nexists>raw items. saved = Returns (Some raw) \<and> raw \<noteq> [] \<and> parsed = Returns (JArr items)) \<longrightarrow>
       loadPhotos seed saved parsed = seed)"
  by (auto simp: loadPhotos_def split: outcome.splits option.splits json.splits)

theorem C4_load_witness:
  "loadPhotos [storedPhoto] (Returns (Some ''[]'')) (Returns (JArr [])) = [] \<and>
   loadPhotos [storedPhoto] (Returns (Some ''{'')) Throws = [storedPhoto] \<and>
   loadPhotos [storedPhoto] (Returns (Some ''{}'')) (Returns (JObj [])) = [storedPhoto]"
proof -
  have 1: "loadPhotos [storedPhoto] (Returns (Some ''[]'')) (Returns (JArr [])) = []"
    using C4_load [of "Returns (Some ''[]'')" "Returns (JArr [])" "[storedPhoto]"] by simp
  have 2: "loadPhotos [storedPhoto] (Returns (Some ''{'')) Throws = [storedPhoto]"
    using C4_load [of "Returns (Some ''{'')" Throws "[storedPhoto]"] by simp
  have 3: "loadPhotos [storedPhoto] (Returns (Some ''{}'')) (Returns (JObj [])) = [storedPhoto]"
    using C4_load [of "Returns (Some ''{}'')" "Returns (JObj [])" "[storedPhoto]"] by simp
  from 1 2 3 show ?thesis by simp
qed

text \<open>
  The claim as stated fails on a stored array whose elements are not photos: the
  array \<open>[1]\<close> is returned as the collection, not the seed.
\<close>

theorem C4_load_counterexample:
  "\<not> list_all photoShaped [JNum 1] \<and>
   loadPhotos [storedPhoto] (Returns (Some ''[1]'')) (Returns (JArr [JNum 1])) = [JNum 1] \<and>
   loadPhotos [storedPhoto] (Returns (Some ''[1]'')) (Returns (JArr [JNum 1])) \<noteq> [storedPhoto]"
  by (simp add: loadPhotos_def photoShaped_def storedPhoto_def)

section \<open>The collection update\<close>

lemma handleUpdatePhoto_exists:
  assumes "list_ex (\<lambda>p. photo_id p = photo_id u) ps"
  shows "handleUpdatePhoto u ps = map (\<lambda>p. if photo_id p = photo_id u then u else p) ps"
  using assms by (simp add: handleUpdatePhoto_def)

lemma handleUpdatePhoto_new:
  assumes "\<not> list_ex (\<lambda>p. photo_id p = photo_id u) ps"
  shows "handleUpdatePhoto u ps = u # ps"
  using assms by (simp add: handleUpdatePhoto_def)

text \<open>
  C7. Upsert: when a photo with the id of the updated photo is in the collection, the
  result has the same length and the same sequence of ids, every position whose photo
  has that id holds the updated photo and every other position is unchanged; when no
  photo has that id, the result is the updated photo followed by the whole previous
  collection, so it is one longer, the new photo is at index 0 and the previous photos
  keep their order.
\<close>

theorem C7_upsert:
  "(list_ex (\<lambda>p. photo_id p = photo_id u) ps \<longrightarrow>
      length (handleUpdatePhoto u ps) = length ps \<and>
      map photo_id (handleUpdatePhoto u ps) = map photo_id ps \<and>
      (\<forall>i < length ps. handleUpdatePhoto u ps ! i =
          (if photo_id (ps ! i) = photo_id u then u else ps ! i))) \<and>
   (\<not> list_ex (\<lambda>p. photo_id p = photo_id u) ps \<longrightarrow>
      length (handleUpdatePhoto u ps) = Suc (length ps) \<and>
      handleUpdatePhoto u ps ! 0 = u \<and>
      tl (handleUpdatePhoto u ps) = ps)"
proof (intro conjI impI)
  assume ex: "list_ex (\<lambda>p. photo_id p = photo_id u) ps"
  show "length (handleUpdatePhoto u ps) = length ps"
    by (simp add: handleUpdatePhoto_exists [OF ex])
  show "map photo_id (handleUpdatePhoto u ps) = map photo_id ps"
    by (simp add: handleUpdatePhoto_exists [OF ex])
  show "\<forall>i < length ps. handleUpdatePhoto u ps ! i =
          (if photo_id (ps ! i) = photo_id u then u else ps ! i)"
    by (simp add: handleUpdatePhoto_exists [OF ex])
next
  assume new: "\<not> list_ex (\<lambda>p. photo_id p = photo_id u) ps"
  show "length (handleUpdatePhoto u ps) = Suc (length ps)"
    by (simp add: handleUpdatePhoto_new [OF new])
  show "handleUpdatePhoto u ps ! 0 = u"
    by (simp add: handleUpdatePhoto_new [OF new])
  show "tl (handleUpdatePhoto u ps) = ps"
    by (simp add: handleUpdatePhoto_new [OF new])
qed

theorem C7_upsert_witness:
  "list_ex (\<lambda>p. photo_id p = photo_id (mkPhoto ''4'' ''https://picsum.photos/id/29/900/600'' (Some 5) None None))
     [mkPhoto ''1'' ''https://picsum.photos/id/16/800/600'' (Some 5) None None,
      mkPhoto ''4'' ''https://picsum.photos/id/28/900/600'' (Some 4) None None] \<and>
   map photo_id (handleUpdatePhoto (mkPhoto ''4'' ''https://picsum.photos/id/29/900/600'' (Some 5) None None)
     [mkPhoto ''1'' ''https://picsum.photos/id/16/800/600'' (Some 5) None None,
      mkPhoto ''4'' ''https://picsum.photos/id/28/900/600'' (Some 4) None None]) = [''1'', ''4''] \<and>
   \<not> list_ex (\<lambda>p. photo_id p = photo_id (mkPhoto ''7'' ''https://picsum.photos/id/29/900/600'' (Some 5) None None))
     [mkPhoto ''1'' ''https://picsum.photos/id/16/800/600'' (Some 5) None None,
      mkPhoto ''4'' ''https://picsum.photos/id/28/900/600'' (Some 4) None None] \<and>
   length (handleUpdatePhoto (mkPhoto ''7'' ''https://picsum.photos/id/29/900/600'' (Some 5) None None)
     [mkPhoto ''1'' ''https://picsum.photos/id/16/800/600'' (Some 5) None None,
      mkPhoto ''4'' ''https://picsum.photos/id/28/900/600'' (Some 4) None None]) = 3 \<and>
   tl (handleUpdatePhoto (mkPhoto ''7'' ''https://picsum.photos/id/29/900/600'' (Some 5) None None)
     [mkPhoto ''1'' ''https://picsum.photos/id/16/800/600'' (Some 5) None None,
      mkPhoto ''4'' ''https://picsum.photos/id/28/900/600'' (Some 4) None None]) =
     [mkPhoto ''1'' ''https://picsum.photos/id/16/800/600'' (Some 5) None None,
      mkPhoto ''4'' ''https://picsum.photos/id/28/900/600'' (Some 4) None None]"
proof -
  let ?old = "[mkPhoto ''1'' ''https://picsum.photos/id/16/800/600'' (Some 5) None None,
      mkPhoto ''4'' ''https://picsum.photos/id/28/900/600'' (Some 4) None None]"
  have e: "list_ex (\<lambda>p. photo_id p = photo_id (mkPhoto ''4'' ''https://picsum.photos/id/29/900/600'' (Some 5) None None)) ?old"
    by (simp add: mkPhoto_def)
  have n: "\<not> list_ex (\<lambda>p. photo_id p = photo_id (mkPhoto ''7'' ''https://picsum.photos/id/29/900/600'' (Some 5) None None)) ?old"
    by (simp add: mkPhoto_def)
  from C7_upsert [of "mkPhoto ''4'' ''https://picsum.photos/id/29/900/600'' (Some 5) None None" ?old] e
  have 1: "map photo_id (handleUpdatePhoto (mkPhoto ''4'' ''https://picsum.photos/id/29/900/600'' (Some 5) None None) ?old)
           = map photo_id ?old"
    by blast
  from C7_upsert [of "mkPhoto ''7'' ''https://picsum.photos/id/29/900/600'' (Some 5) None None" ?old] n
  have 2: "length (handleUpdatePhoto (mkPhoto ''7'' ''https://picsum.photos/id/29/900/600'' (Some 5) None None) ?old)
           = Suc (length ?old)"
    and 3: "tl (handleUpdatePhoto (mkPhoto ''7'' ''https://picsum.photos/id/29/900/600'' (Some 5) None None) ?old) = ?old"
    by blast+
  have 4: "map photo_id ?old = [''1'', ''4'']" by (simp add: mkPhoto_def)
  show ?thesis using e n 1 2 3 4 by simp
qed

end
